theory Spec2Isabelle
  imports Main "HOL-Library.Multiset"
begin

section \<open>The students table and the database connection\<close>

text \<open>
  The program \<^verbatim>\<open>student_database.py\<close> is a console application over one table
  \<^verbatim>\<open>students\<close>. Its class \<^verbatim>\<open>StudentDatabase\<close> owns a psycopg2 connection and a
  cursor and offers four operations; \<^verbatim>\<open>main\<close> is the menu loop that calls them.

  The database server and the driver are not part of the program. They are modelled
  here as far as the program observes them: the rows of the table, the transaction
  that the connection has open, the identifier sequence, the cursor's
  \<^verbatim>\<open>rowcount\<close>, and the list of calls the connection has sent.
\<close>

datatype date = Date int int int

record student =
  student_id :: int
  first_name :: string
  last_name :: string
  email :: string
  enrollment_date :: date

text \<open>The subclasses of \<^verbatim>\<open>psycopg2.Error\<close> that the model distinguishes, and the
  exceptions of the program. \<^verbatim>\<open>KeyboardInterrupt\<close> is the only one that is not an
  \<^verbatim>\<open>Exception\<close>.\<close>

datatype db_error = UniqueViolation | InvalidDatetimeFormat | OperationalError | InterfaceError

datatype exn = DbError db_error | EOFError | ValueError | KeyboardInterrupt

text \<open>The statements of the program, with their bound parameters, and the two
  transaction calls of the connection.\<close>

datatype stmt =
    SelectAll
  | InsertReturning string string string string
  | SelectById int
  | UpdateEmail string int
  | DeleteById int
  | Commit
  | Rollback

record conn =
  stored :: "student list"
  working :: "student list"
  seq :: int
  rowcount :: int
  log :: "stmt list"
  is_open :: bool

text \<open>
  \<open>stored\<close> is the committed table, \<open>working\<close> the table as the open transaction
  sees it, \<open>seq\<close> the next value of the identifier sequence. No column holds
  \<^verbatim>\<open>NULL\<close>.

  What lies outside the program is a parameter of the model:
  \<^item> \<open>connect_result\<close>: what \<^verbatim>\<open>psycopg2.connect\<close> does, an error or a connection;
  \<^item> \<open>fault\<close>: whether the \<open>n\<close>-th call sent over the connection is disturbed from
    outside the program;
  \<^item> \<open>row_gone\<close>: what the disturbance of an \<^verbatim>\<open>UPDATE\<close> or a \<^verbatim>\<open>DELETE\<close> is. Either
    another session has deleted the rows with the identifier since the lookup (the
    lookup and the write of an operation are two statements), and the statement runs
    and affects no row; or the call fails. At every other call a disturbance is a
    failure of the call;
  \<^item> \<open>date_in\<close>: the server's reading of a text as a value of type \<^verbatim>\<open>date\<close>;
  \<^item> \<open>strptime\<close>: whether \<^verbatim>\<open>datetime.strptime(s, '%Y-%m-%d')\<close> returns (rather
    than raising \<^verbatim>\<open>ValueError\<close>);
  \<^item> \<open>py_int\<close>: the value of \<^verbatim>\<open>int(s)\<close>, \<open>None\<close> when it raises \<^verbatim>\<open>ValueError\<close>;
  \<^item> \<open>py_strip\<close>, \<open>py_lower\<close>: \<^verbatim>\<open>str.strip()\<close> and \<^verbatim>\<open>str.lower()\<close> on a text that
    has a character outside ASCII.
\<close>

record env =
  connect_result :: "db_error + conn"
  fault :: "nat \<Rightarrow> bool"
  row_gone :: "nat \<Rightarrow> bool"
  date_in :: "string \<Rightarrow> date option"
  strptime :: "string \<Rightarrow> bool"
  py_int :: "string \<Rightarrow> int option"
  py_strip :: "string \<Rightarrow> string"
  py_lower :: "string \<Rightarrow> string"

subsection \<open>The driver\<close>

definition sent :: "stmt \<Rightarrow> conn \<Rightarrow> conn" where
  "sent st c = c\<lparr>log := log c @ [st]\<rparr>"

definition faulty :: "env \<Rightarrow> conn \<Rightarrow> bool" where
  "faulty E c = fault E (length (log c))"

definition has_id :: "int \<Rightarrow> student \<Rightarrow> bool" where
  "has_id i r = (student_id r = i)"

text \<open>The driver refuses a text parameter that holds the character NUL: it raises
  \<^verbatim>\<open>ValueError\<close>, which is not a \<^verbatim>\<open>psycopg2.Error\<close>, before anything is sent.\<close>

definition has_nul :: "string \<Rightarrow> bool" where
  "has_nul s = (CHR 0x00 \<in> set s)"

text \<open>\<^verbatim>\<open>SELECT * FROM students ORDER BY student_id;\<close> followed by \<^verbatim>\<open>fetchall()\<close>.\<close>

definition select_all :: "env \<Rightarrow> conn \<Rightarrow> (db_error + student list) \<times> conn" where
  "select_all E c =
     (if faulty E c then (Inl OperationalError, sent SelectAll c)
      else (Inr (sort_key student_id (working c)),
            (sent SelectAll c)\<lparr>rowcount := int (length (working c))\<rparr>))"

text \<open>\<^verbatim>\<open>SELECT first_name, last_name, email FROM students WHERE student_id = %s;\<close>
  followed by \<^verbatim>\<open>fetchone()\<close>: the first matching row, or \<open>None\<close>.\<close>

definition select_by_id ::
  "env \<Rightarrow> int \<Rightarrow> conn \<Rightarrow> (db_error + (string \<times> string \<times> string) option) \<times> conn" where
  "select_by_id E i c =
     (if faulty E c then (Inl OperationalError, sent (SelectById i) c)
      else
        (Inr (case filter (has_id i) (working c) of
                [] \<Rightarrow> None
              | r # _ \<Rightarrow> Some (first_name r, last_name r, email r)),
         (sent (SelectById i) c)\<lparr>rowcount := int (length (filter (has_id i) (working c)))\<rparr>))"

text \<open>
  \<^verbatim>\<open>INSERT INTO students (first_name, last_name, email, enrollment_date)
  VALUES (%s, %s, %s, %s) RETURNING student_id;\<close> followed by \<^verbatim>\<open>fetchone()[0]\<close>.
  The identifier is the next value of the sequence; the value is taken from the
  sequence also when the row is then refused by the primary key or by the unique
  constraint on the email.
\<close>

definition insert_returning ::
  "env \<Rightarrow> string \<Rightarrow> string \<Rightarrow> string \<Rightarrow> string \<Rightarrow> conn \<Rightarrow> (exn + int) \<times> conn" where
  "insert_returning E fn ln em d c =
     (if has_nul fn \<or> has_nul ln \<or> has_nul em \<or> has_nul d then (Inl ValueError, c)
      else
        (let c1 = sent (InsertReturning fn ln em d) c in
         if faulty E c then (Inl (DbError OperationalError), c1)
         else
           (case date_in E d of
              None \<Rightarrow> (Inl (DbError InvalidDatetimeFormat), c1)
            | Some dt \<Rightarrow>
                (let i = seq c; c2 = c1\<lparr>seq := i + 1\<rparr> in
                 if list_ex (\<lambda>r. student_id r = i \<or> email r = em) (working c)
                 then (Inl (DbError UniqueViolation), c2)
                 else
                   (Inr i,
                    c2\<lparr>working := working c @
                          [\<lparr>student_id = i, first_name = fn, last_name = ln,
                            email = em, enrollment_date = dt\<rparr>],
                        rowcount := 1\<rparr>)))))"

text \<open>
  \<^verbatim>\<open>UPDATE students SET email = %s WHERE student_id = %s;\<close> The statement is
  refused when a row it changes would share its email with another row. When
  another session has deleted the rows with the identifier, they are gone from the
  table and the statement affects no row.
\<close>

definition update_email :: "env \<Rightarrow> string \<Rightarrow> int \<Rightarrow> conn \<Rightarrow> (exn + unit) \<times> conn" where
  "update_email E em i c =
     (if has_nul em then (Inl ValueError, c)
      else
        (let c1 = sent (UpdateEmail em i) c; hit = filter (has_id i) (working c) in
         if faulty E c then
           (if row_gone E (length (log c))
            then (Inr (),
                  c1\<lparr>stored := filter (\<lambda>r. \<not> has_id i r) (stored c),
                     working := filter (\<lambda>r. \<not> has_id i r) (working c),
                     rowcount := 0\<rparr>)
            else (Inl (DbError OperationalError), c1))
         else if hit \<noteq> [] \<and>
                 (1 < length hit \<or>
                  list_ex (\<lambda>r. student_id r \<noteq> i \<and> email r = em) (working c))
         then (Inl (DbError UniqueViolation), c1)
         else
           (Inr (),
            c1\<lparr>working := map (\<lambda>r. if has_id i r then r\<lparr>email := em\<rparr> else r) (working c),
               rowcount := int (length hit)\<rparr>)))"

text \<open>\<^verbatim>\<open>DELETE FROM students WHERE student_id = %s;\<close>\<close>

definition delete_by_id :: "env \<Rightarrow> int \<Rightarrow> conn \<Rightarrow> (db_error + unit) \<times> conn" where
  "delete_by_id E i c =
     (let c1 = sent (DeleteById i) c in
      if faulty E c then
        (if row_gone E (length (log c))
         then (Inr (),
               c1\<lparr>stored := filter (\<lambda>r. \<not> has_id i r) (stored c),
                  working := filter (\<lambda>r. \<not> has_id i r) (working c),
                  rowcount := 0\<rparr>)
         else (Inl OperationalError, c1))
      else
        (Inr (),
         c1\<lparr>working := filter (\<lambda>r. \<not> has_id i r) (working c),
            rowcount := int (length (filter (has_id i) (working c)))\<rparr>))"

text \<open>\<^verbatim>\<open>connection.commit()\<close> makes the transaction's table the stored one;
  \<^verbatim>\<open>connection.rollback()\<close> discards the transaction. Both are calls sent over the
  connection and fail when they are disturbed; a rollback on a lost connection
  raises \<^verbatim>\<open>InterfaceError\<close>.\<close>

definition commit :: "env \<Rightarrow> conn \<Rightarrow> (db_error + unit) \<times> conn" where
  "commit E c =
     (if faulty E c then (Inl OperationalError, sent Commit c)
      else (Inr (), (sent Commit c)\<lparr>stored := working c\<rparr>))"

definition rollback :: "env \<Rightarrow> conn \<Rightarrow> (db_error + unit) \<times> conn" where
  "rollback E c =
     (if faulty E c then (Inl InterfaceError, sent Rollback c)
      else (Inr (), (sent Rollback c)\<lparr>working := stored c\<rparr>))"

section \<open>The class StudentDatabase\<close>

text \<open>What the program prints. The prompts of \<^verbatim>\<open>input\<close> and the ruled lines of the
  banners are left out; every other \<^verbatim>\<open>print\<close> is one message.\<close>

datatype msg =
    Banner
  | Connected
  | ErrConnecting db_error
  | TableHeader
  | StudentLine student
  | TotalStudents nat
  | NoStudents
  | TableFooter
  | ErrRetrieving db_error
  | Added string string int
  | ErrAdding db_error
  | NotFound int
  | Updated string string string string
  | NoChanges int
  | ErrUpdating db_error
  | Deleted string string int string
  | NoneDeleted int
  | ErrDeleting db_error
  | Closed
  | Menu
  | AddHeader
  | UpdateHeader
  | DeleteHeader
  | InvalidDateFormat
  | InvalidStudentId
  | DeletionCancelled
  | Exiting
  | InvalidChoice
  | AnErrorOccurred exn
  | ThankYou

text \<open>\<^verbatim>\<open>__init__\<close>: connects, prints, and re-raises the driver's error.\<close>

definition init :: "env \<Rightarrow> (db_error + conn) \<times> msg list" where
  "init E =
     (case connect_result E of
        Inr c \<Rightarrow> (Inr c, [Connected])
      | Inl e \<Rightarrow> (Inl e, [ErrConnecting e]))"

definition getAllStudents :: "env \<Rightarrow> conn \<Rightarrow> conn \<times> msg list \<times> student list" where
  "getAllStudents E c =
     (case select_all E c of
        (Inr students, c1) \<Rightarrow>
          (c1,
           [TableHeader] @
           (if students \<noteq> [] then map StudentLine students @ [TotalStudents (length students)]
            else [NoStudents]) @
           [TableFooter],
           students)
      | (Inl e, c1) \<Rightarrow> (c1, [ErrRetrieving e], []))"

text \<open>
  The handler \<^verbatim>\<open>except Error as e\<close> of the three writing methods: it calls
  \<^verbatim>\<open>self.connection.rollback()\<close>, prints the message and returns the value of
  failure. The rollback is not guarded: when it raises, its error leaves the method
  and nothing is printed. An exception that is not a \<^verbatim>\<open>psycopg2.Error\<close> is not
  caught by the handler and leaves the method as it is.
\<close>

definition except_Error ::
  "env \<Rightarrow> conn \<Rightarrow> msg \<Rightarrow> 'a \<Rightarrow> conn \<times> msg list \<times> (exn + 'a)" where
  "except_Error E c m failure =
     (case rollback E c of
        (Inl e, c1) \<Rightarrow> (c1, [], Inl (DbError e))
      | (Inr _, c1) \<Rightarrow> (c1, [m], Inr failure))"

definition addStudent ::
  "env \<Rightarrow> conn \<Rightarrow> string \<Rightarrow> string \<Rightarrow> string \<Rightarrow> string \<Rightarrow>
     conn \<times> msg list \<times> (exn + int option)" where
  "addStudent E c fn ln em d =
     (case insert_returning E fn ln em d c of
        (Inl ex, c1) \<Rightarrow>
          (case ex of
             DbError e \<Rightarrow> except_Error E c1 (ErrAdding e) None
           | _ \<Rightarrow> (c1, [], Inl ex))
      | (Inr sid, c1) \<Rightarrow>
          (case commit E c1 of
             (Inl e, c2) \<Rightarrow> except_Error E c2 (ErrAdding e) None
           | (Inr _, c2) \<Rightarrow> (c2, [Added fn ln sid], Inr (Some sid))))"

definition updateStudentEmail ::
  "env \<Rightarrow> conn \<Rightarrow> int \<Rightarrow> string \<Rightarrow> conn \<times> msg list \<times> (exn + bool)" where
  "updateStudentEmail E c sid new_email =
     (case select_by_id E sid c of
        (Inl e, c1) \<Rightarrow> except_Error E c1 (ErrUpdating e) False
      | (Inr None, c1) \<Rightarrow> (c1, [NotFound sid], Inr False)
      | (Inr (Some (old_first_name, old_last_name, old_email)), c1) \<Rightarrow>
          (case update_email E new_email sid c1 of
             (Inl ex, c2) \<Rightarrow>
               (case ex of
                  DbError e \<Rightarrow> except_Error E c2 (ErrUpdating e) False
                | _ \<Rightarrow> (c2, [], Inl ex))
           | (Inr _, c2) \<Rightarrow>
               (case commit E c2 of
                  (Inl e, c3) \<Rightarrow> except_Error E c3 (ErrUpdating e) False
                | (Inr _, c3) \<Rightarrow>
                    (if rowcount c3 > 0
                     then (c3, [Updated old_first_name old_last_name old_email new_email],
                           Inr True)
                     else (c3, [NoChanges sid], Inr False)))))"

definition deleteStudent :: "env \<Rightarrow> conn \<Rightarrow> int \<Rightarrow> conn \<times> msg list \<times> (exn + bool)" where
  "deleteStudent E c sid =
     (case select_by_id E sid c of
        (Inl e, c1) \<Rightarrow> except_Error E c1 (ErrDeleting e) False
      | (Inr None, c1) \<Rightarrow> (c1, [NotFound sid], Inr False)
      | (Inr (Some (fn, ln, em)), c1) \<Rightarrow>
          (case delete_by_id E sid c1 of
             (Inl e, c2) \<Rightarrow> except_Error E c2 (ErrDeleting e) False
           | (Inr _, c2) \<Rightarrow>
               (case commit E c2 of
                  (Inl e, c3) \<Rightarrow> except_Error E c3 (ErrDeleting e) False
                | (Inr _, c3) \<Rightarrow>
                    (if rowcount c3 > 0
                     then (c3, [Deleted fn ln sid em], Inr True)
                     else (c3, [NoneDeleted sid], Inr False)))))"

definition close :: "conn \<Rightarrow> conn \<times> msg list" where
  "close c = (c\<lparr>is_open := False\<rparr>, [Closed])"

section \<open>The menu loop\<close>

text \<open>
  Standard input is a list of items: a line typed by the operator or an interrupt
  (Ctrl-C). \<^verbatim>\<open>input()\<close> takes the next item; at the end of the input it raises
  \<^verbatim>\<open>EOFError\<close>, at an interrupt \<^verbatim>\<open>KeyboardInterrupt\<close>.
\<close>

datatype inp = Line string | CtrlC

fun input :: "inp list \<Rightarrow> exn + (string \<times> inp list)" where
  "input [] = Inl EOFError"
| "input (CtrlC # rest) = Inl KeyboardInterrupt"
| "input (Line s # rest) = Inr (s, rest)"

text \<open>
  \<^verbatim>\<open>str.strip()\<close> and \<^verbatim>\<open>str.lower()\<close>. On a text of ASCII characters only they are
  computed here: the white space of \<^verbatim>\<open>str.isspace\<close> below 128 is removed at both
  ends, and the letters A to Z are replaced. A text that has any other character
  stands, in UTF-8, for a Python string with characters outside ASCII; what the two
  methods do with it (other white space such as U+00A0 or U+0085, other letters) is
  the library's, and is left to the parameters \<open>py_strip\<close> and \<open>py_lower\<close>.
\<close>

definition is_ascii :: "string \<Rightarrow> bool" where
  "is_ascii s = list_all (\<lambda>ch. \<not> digit7 ch) s"

definition isspace :: "char \<Rightarrow> bool" where
  "isspace ch = ((of_char ch :: nat) \<in> {9, 10, 11, 12, 13, 28, 29, 30, 31, 32})"

definition strip :: "env \<Rightarrow> string \<Rightarrow> string" where
  "strip E s =
     (if is_ascii s then rev (dropWhile isspace (rev (dropWhile isspace s)))
      else py_strip E s)"

definition lower_char :: "char \<Rightarrow> char" where
  "lower_char ch =
     (case map_of (zip ''ABCDEFGHIJKLMNOPQRSTUVWXYZ'' ''abcdefghijklmnopqrstuvwxyz'') ch of
        Some l \<Rightarrow> l
      | None \<Rightarrow> ch)"

definition lower :: "env \<Rightarrow> string \<Rightarrow> string" where
  "lower E s = (if is_ascii s then map lower_char s else py_lower E s)"

text \<open>The branches of the menu. Each returns the exception that leaves it (\<open>None\<close>
  when it completes), the connection, what it printed, and the input that is left.\<close>

type_synonym shell = "exn option \<times> conn \<times> msg list \<times> inp list"

text \<open>
  Choice 2: four prompts, then \<^verbatim>\<open>try\<close>: the date check and \<^verbatim>\<open>addStudent\<close>;
  \<^verbatim>\<open>except ValueError\<close>: the message about the date format. The handler also
  catches a \<^verbatim>\<open>ValueError\<close> that leaves \<^verbatim>\<open>addStudent\<close>.
\<close>

definition choice_add :: "env \<Rightarrow> conn \<Rightarrow> inp list \<Rightarrow> shell" where
  "choice_add E db ins =
     (case input ins of
        Inl ex \<Rightarrow> (Some ex, db, [AddHeader], ins)
      | Inr (l1, ins1) \<Rightarrow>
     (case input ins1 of
        Inl ex \<Rightarrow> (Some ex, db, [AddHeader], ins1)
      | Inr (l2, ins2) \<Rightarrow>
     (case input ins2 of
        Inl ex \<Rightarrow> (Some ex, db, [AddHeader], ins2)
      | Inr (l3, ins3) \<Rightarrow>
     (case input ins3 of
        Inl ex \<Rightarrow> (Some ex, db, [AddHeader], ins3)
      | Inr (l4, ins4) \<Rightarrow>
          (let fn = strip E l1; ln = strip E l2; em = strip E l3; d = strip E l4
           in if strptime E d
              then (case addStudent E db fn ln em d of
                      (db1, out, Inr _) \<Rightarrow> (None, db1, AddHeader # out, ins4)
                    | (db1, out, Inl ex) \<Rightarrow>
                        (if ex = ValueError
                         then (None, db1, AddHeader # out @ [InvalidDateFormat], ins4)
                         else (Some ex, db1, AddHeader # out, ins4)))
              else (None, db, [AddHeader, InvalidDateFormat], ins4))))))"

text \<open>Choice 3: inside \<^verbatim>\<open>try\<close> the identifier is read and converted, the email is
  read, and \<^verbatim>\<open>updateStudentEmail\<close> is called; \<^verbatim>\<open>except ValueError\<close> prints the
  message about the identifier, whichever of them raised it.\<close>

definition choice_update :: "env \<Rightarrow> conn \<Rightarrow> inp list \<Rightarrow> shell" where
  "choice_update E db ins =
     (case input ins of
        Inl ex \<Rightarrow> (Some ex, db, [UpdateHeader], ins)
      | Inr (l1, ins1) \<Rightarrow>
          (case py_int E (strip E l1) of
             None \<Rightarrow> (None, db, [UpdateHeader, InvalidStudentId], ins1)
           | Some sid \<Rightarrow>
               (case input ins1 of
                  Inl ex \<Rightarrow> (Some ex, db, [UpdateHeader], ins1)
                | Inr (l2, ins2) \<Rightarrow>
                    (case updateStudentEmail E db sid (strip E l2) of
                       (db1, out, Inr _) \<Rightarrow> (None, db1, UpdateHeader # out, ins2)
                     | (db1, out, Inl ex) \<Rightarrow>
                         (if ex = ValueError
                          then (None, db1, UpdateHeader # out @ [InvalidStudentId], ins2)
                          else (Some ex, db1, UpdateHeader # out, ins2))))))"

text \<open>Choice 4: the identifier, then the confirmation, stripped and lower-cased.\<close>

definition choice_delete :: "env \<Rightarrow> conn \<Rightarrow> inp list \<Rightarrow> shell" where
  "choice_delete E db ins =
     (case input ins of
        Inl ex \<Rightarrow> (Some ex, db, [DeleteHeader], ins)
      | Inr (l1, ins1) \<Rightarrow>
          (case py_int E (strip E l1) of
             None \<Rightarrow> (None, db, [DeleteHeader, InvalidStudentId], ins1)
           | Some sid \<Rightarrow>
               (case input ins1 of
                  Inl ex \<Rightarrow> (Some ex, db, [DeleteHeader], ins1)
                | Inr (l2, ins2) \<Rightarrow>
                    (let confirm = lower E (strip E l2)
                     in if confirm = ''yes''
                        then (case deleteStudent E db sid of
                                (db1, out, Inr _) \<Rightarrow> (None, db1, DeleteHeader # out, ins2)
                              | (db1, out, Inl ex) \<Rightarrow>
                                  (if ex = ValueError
                                   then (None, db1,
                                         DeleteHeader # out @ [InvalidStudentId], ins2)
                                   else (Some ex, db1, DeleteHeader # out, ins2)))
                        else (None, db, [DeleteHeader, DeletionCancelled], ins2)))))"

datatype ctl = Continue | Break

text \<open>The \<^verbatim>\<open>if\<close>/\<^verbatim>\<open>elif\<close> chain on the stripped choice.\<close>

definition menu_choice ::
  "env \<Rightarrow> conn \<Rightarrow> string \<Rightarrow> inp list \<Rightarrow> (exn + ctl) \<times> conn \<times> msg list \<times> inp list" where
  "menu_choice E db choice ins =
     (if choice = ''1'' then
        (case getAllStudents E db of (db1, out, _) \<Rightarrow> (Inr Continue, db1, out, ins))
      else if choice = ''2'' then
        (case choice_add E db ins of
           (Some ex, db1, out, ins1) \<Rightarrow> (Inl ex, db1, out, ins1)
         | (None, db1, out, ins1) \<Rightarrow> (Inr Continue, db1, out, ins1))
      else if choice = ''3'' then
        (case choice_update E db ins of
           (Some ex, db1, out, ins1) \<Rightarrow> (Inl ex, db1, out, ins1)
         | (None, db1, out, ins1) \<Rightarrow> (Inr Continue, db1, out, ins1))
      else if choice = ''4'' then
        (case choice_delete E db ins of
           (Some ex, db1, out, ins1) \<Rightarrow> (Inl ex, db1, out, ins1)
         | (None, db1, out, ins1) \<Rightarrow> (Inr Continue, db1, out, ins1))
      else if choice = ''5'' then (Inr Break, db, [Exiting], ins)
      else (Inr Continue, db, [InvalidChoice], ins))"

lemma input_shorter: "input ins = Inr (s, rest) \<Longrightarrow> length rest < length ins"
  by (induction ins rule: input.induct) auto

lemma choice_add_length: "choice_add E db ins = (r, db1, out, ins1) \<Longrightarrow> length ins1 \<le> length ins"
  by (auto simp: choice_add_def Let_def split: sum.splits prod.splits if_splits
           dest!: input_shorter)

lemma choice_update_length:
  "choice_update E db ins = (r, db1, out, ins1) \<Longrightarrow> length ins1 \<le> length ins"
  by (auto simp: choice_update_def Let_def split: sum.splits prod.splits option.splits if_splits
           dest!: input_shorter)

lemma choice_delete_length:
  "choice_delete E db ins = (r, db1, out, ins1) \<Longrightarrow> length ins1 \<le> length ins"
  by (auto simp: choice_delete_def Let_def split: sum.splits prod.splits option.splits if_splits
           dest!: input_shorter)

lemma menu_choice_length:
  "menu_choice E db choice ins = (r, db1, out, ins1) \<Longrightarrow> length ins1 \<le> length ins"
  by (auto simp: menu_choice_def split: if_splits prod.splits option.splits
           dest: choice_add_length choice_update_length choice_delete_length)

text \<open>
  \<^verbatim>\<open>while True\<close>: the menu, the choice, its branch, and unless the branch was the
  exit, the prompt to press Enter. Every round takes at least the line of the choice
  from the input, so on a finite input the loop ends: by the exit, or by the
  exception of an \<^verbatim>\<open>input()\<close> that finds nothing to read, or by an exception that
  leaves a branch.
\<close>

function main_loop :: "env \<Rightarrow> conn \<Rightarrow> inp list \<Rightarrow> exn option \<times> conn \<times> msg list" where
  "main_loop E db ins =
     (case input ins of
        Inl ex \<Rightarrow> (Some ex, db, [Menu])
      | Inr (l, ins1) \<Rightarrow>
          (case menu_choice E db (strip E l) ins1 of
             (Inl ex, db1, out, ins2) \<Rightarrow> (Some ex, db1, Menu # out)
           | (Inr Break, db1, out, ins2) \<Rightarrow> (None, db1, Menu # out)
           | (Inr Continue, db1, out, ins2) \<Rightarrow>
               (case input ins2 of
                  Inl ex \<Rightarrow> (Some ex, db1, Menu # out)
                | Inr (_, ins3) \<Rightarrow>
                    (case main_loop E db1 ins3 of
                       (r, db2, out2) \<Rightarrow> (r, db2, Menu # out @ out2)))))"
  by pat_completeness auto
termination
proof (relation "measure (\<lambda>(E, db, ins). length ins)", goal_cases)
  case 1
  show ?case by simp
next
  case 2
  then show ?case
    by (auto dest!: input_shorter menu_choice_length [OF sym])
qed

declare main_loop.simps [simp del]

text \<open>
  \<^verbatim>\<open>main\<close>: the whole body is inside \<^verbatim>\<open>try\<close> ... \<^verbatim>\<open>except Exception\<close>, which
  catches every exception of the model but \<^verbatim>\<open>KeyboardInterrupt\<close>. The result is the
  exception that leaves \<^verbatim>\<open>main\<close>, if any, and what was printed.
\<close>

definition is_Exception :: "exn \<Rightarrow> bool" where
  "is_Exception ex = (ex \<noteq> KeyboardInterrupt)"

definition except_Exception :: "exn \<Rightarrow> msg list \<Rightarrow> exn option \<times> msg list" where
  "except_Exception ex out =
     (if is_Exception ex then (None, out @ [AnErrorOccurred ex, ThankYou])
      else (Some ex, out))"

definition main :: "env \<Rightarrow> inp list \<Rightarrow> exn option \<times> msg list" where
  "main E ins =
     (case init E of
        (Inl e, out) \<Rightarrow> except_Exception (DbError e) (Banner # out)
      | (Inr db, out) \<Rightarrow>
          (case main_loop E db ins of
             (Some ex, db1, out1) \<Rightarrow> except_Exception ex (Banner # out @ out1)
           | (None, db1, out1) \<Rightarrow>
               (case close db1 of
                  (db2, out2) \<Rightarrow> (None, Banner # out @ out1 @ out2 @ [ThankYou]))))"

text \<open>The status of the process: 0 when \<^verbatim>\<open>main\<close> returns and the script ends, not 0
  (1 in the model) when an exception leaves \<^verbatim>\<open>main\<close>.\<close>

definition exit_code :: "exn option \<times> msg list \<Rightarrow> int" where
  "exit_code r = (case fst r of None \<Rightarrow> 0 | Some _ \<Rightarrow> 1)"

section \<open>A sample database\<close>

text \<open>Two students and an environment without disturbance, used to run the
  operations on concrete inputs. All sample inputs are ASCII texts, so the values
  given here to \<open>py_strip\<close> and \<open>py_lower\<close> are never used.\<close>

definition ada :: student where
  "ada = \<lparr>student_id = 1, first_name = ''Ada'', last_name = ''Lovelace'',
           email = ''ada@x.com'', enrollment_date = Date 1990 1 1\<rparr>"

definition bob :: student where
  "bob = \<lparr>student_id = 2, first_name = ''Bob'', last_name = ''Stone'',
           email = ''bob@x.com'', enrollment_date = Date 1991 2 3\<rparr>"

definition db0 :: conn where
  "db0 = \<lparr>stored = [ada, bob], working = [ada, bob], seq = 3, rowcount = 0,
           log = [], is_open = True\<rparr>"

definition env0 :: env where
  "env0 =
     \<lparr>connect_result = Inr db0,
      fault = (\<lambda>n. False),
      row_gone = (\<lambda>n. False),
      date_in = (\<lambda>s. if s = ''1990-01-01'' then Some (Date 1990 1 1) else None),
      strptime = (\<lambda>s. s = ''1990-01-01''),
      py_int = (\<lambda>s. if s = ''1'' then Some 1 else if s = ''7'' then Some 7 else None),
      py_strip = (\<lambda>s. s),
      py_lower = (\<lambda>s. s)\<rparr>"

text \<open>The same environment with every call failing; with the first call failing
  and the others not; with the second call finding that another session has deleted
  the row; and one whose connection attempt fails.\<close>

definition env_down :: env where
  "env_down = env0\<lparr>fault := (\<lambda>n. True)\<rparr>"

definition env_flaky :: env where
  "env_flaky = env0\<lparr>fault := (\<lambda>n. n = 0)\<rparr>"

definition env_raced :: env where
  "env_raced = env0\<lparr>fault := (\<lambda>n. n = 1), row_gone := (\<lambda>n. True)\<rparr>"

definition env_refused :: env where
  "env_refused = env0\<lparr>connect_result := Inl OperationalError\<rparr>"

section \<open>The invariant of the table\<close>

definition ids :: "student list \<Rightarrow> int set" where
  "ids rows = student_id ` set rows"

text \<open>The primary key, the unique constraint on the email, and no NUL in a text
  (the server cannot store one).\<close>

definition constraints :: "student list \<Rightarrow> bool" where
  "constraints rows \<longleftrightarrow>
     distinct (map student_id rows) \<and> distinct (map email rows) \<and>
     list_all (\<lambda>r. \<not> has_nul (first_name r) \<and> \<not> has_nul (last_name r) \<and>
                   \<not> has_nul (email r)) rows"

definition quiescent :: "conn \<Rightarrow> bool" where
  "quiescent c \<longleftrightarrow> working c = stored c"

definition consistent :: "conn \<Rightarrow> bool" where
  "consistent c \<longleftrightarrow> constraints (stored c) \<and> quiescent c"

text \<open>The table after an update of the email of the rows with identifier \<open>i\<close>,
  whether another row already has the email, and the table without the rows with
  identifier \<open>i\<close>.\<close>

definition set_email :: "int \<Rightarrow> string \<Rightarrow> student list \<Rightarrow> student list" where
  "set_email i em rows = map (\<lambda>r. if has_id i r then r\<lparr>email := em\<rparr> else r) rows"

definition email_taken :: "int \<Rightarrow> string \<Rightarrow> student list \<Rightarrow> bool" where
  "email_taken i em rows = list_ex (\<lambda>r. student_id r \<noteq> i \<and> email r = em) rows"

definition without :: "int \<Rightarrow> student list \<Rightarrow> student list" where
  "without i rows = filter (\<lambda>r. \<not> has_id i r) rows"

text \<open>The row that an insert adds.\<close>

definition new_row :: "int \<Rightarrow> string \<Rightarrow> string \<Rightarrow> string \<Rightarrow> date \<Rightarrow> student" where
  "new_row i fn ln em dt =
     \<lparr>student_id = i, first_name = fn, last_name = ln, email = em, enrollment_date = dt\<rparr>"

text \<open>The server accepts the insert and the commit: neither call is disturbed, the
  date is read, and neither the next identifier nor the email is in the table.\<close>

definition insert_accepted :: "env \<Rightarrow> conn \<Rightarrow> string \<Rightarrow> string \<Rightarrow> bool" where
  "insert_accepted E c em d \<longleftrightarrow>
     \<not> fault E (length (log c)) \<and> date_in E d \<noteq> None \<and>
     \<not> list_ex (\<lambda>r. student_id r = seq c \<or> email r = em) (working c) \<and>
     \<not> fault E (Suc (length (log c)))"

lemmas sample_defs = env0_def env_down_def env_flaky_def env_raced_def env_refused_def
  db0_def ada_def bob_def

lemmas driver_defs = select_all_def select_by_id_def insert_returning_def update_email_def
  delete_by_id_def commit_def rollback_def except_Error_def sent_def faulty_def has_id_def
  has_nul_def Let_def

lemmas text_defs = strip_def is_ascii_def isspace_def lower_def lower_char_def

section \<open>Facts about the driver\<close>

lemma filter_has_id_empty: "filter (has_id i) rows = [] \<longleftrightarrow> i \<notin> ids rows"
  by (auto simp: filter_empty_conv has_id_def ids_def)

lemma filter_has_id_distinct:
  "distinct (map student_id rows) \<Longrightarrow> length (filter (has_id i) rows) \<le> 1"
proof (induction rows)
  case Nil
  show ?case by simp
next
  case (Cons r rows)
  show ?case
  proof (cases "has_id i r")
    case True
    with Cons.prems have "i \<notin> ids rows"
      by (auto simp: has_id_def ids_def)
    then have "filter (has_id i) rows = []"
      by (simp add: filter_has_id_empty)
    with True show ?thesis by simp
  next
    case False
    with Cons show ?thesis by simp
  qed
qed

lemma filter_has_id_one:
  assumes "distinct (map student_id rows)" and "i \<in> ids rows"
  shows "length (filter (has_id i) rows) = 1"
proof -
  from assms(2) have "filter (has_id i) rows \<noteq> []"
    by (simp add: filter_has_id_empty)
  then have "0 < length (filter (has_id i) rows)" by simp
  with filter_has_id_distinct [OF assms(1), of i] show ?thesis by linarith
qed

lemma filter_has_id_single:
  assumes "distinct (map student_id rows)" and "i \<in> ids rows"
  shows "\<exists>r. filter (has_id i) rows = [r] \<and> r \<in> set rows \<and> student_id r = i"
proof -
  from filter_has_id_one [OF assms] obtain r where r: "filter (has_id i) rows = [r]"
    by (auto simp: length_Suc_conv)
  then have "r \<in> set (filter (has_id i) rows)" by simp
  then have "r \<in> set rows \<and> student_id r = i" by (simp add: has_id_def)
  with r show ?thesis by blast
qed

lemma select_by_id_absent:
  "i \<notin> ids (working c) \<Longrightarrow> \<not> faulty E c \<Longrightarrow>
     select_by_id E i c = (Inr None, (sent (SelectById i) c)\<lparr>rowcount := 0\<rparr>)"
  by (simp add: select_by_id_def filter_has_id_empty [THEN iffD2])

lemma select_by_id_faulty:
  "faulty E c \<Longrightarrow> select_by_id E i c = (Inl OperationalError, sent (SelectById i) c)"
  by (simp add: select_by_id_def)

lemma except_Error_after_lookup:
  "quiescent c \<Longrightarrow>
     except_Error E (sent (SelectById i) c) m failure =
       (if fault E (Suc (length (log c)))
        then (c\<lparr>log := log c @ [SelectById i, Rollback]\<rparr>, [], Inl (DbError InterfaceError))
        else (c\<lparr>log := log c @ [SelectById i, Rollback]\<rparr>, [m], Inr failure))"
  by (simp add: except_Error_def rollback_def sent_def faulty_def quiescent_def)

section \<open>Identifiers that are not in the table\<close>

text \<open>
  Claim C3. For an identifier that no row of the table has,
  \<^verbatim>\<open>updateStudentEmail\<close> never returns \<open>True\<close> and writes nothing: the stored table
  and the transaction's table are those before the call, and no \<open>UpdateEmail\<close> and
  no \<open>Commit\<close> is sent. When the lookup runs, the call reports that the student was
  not found and returns \<open>False\<close>, and the lookup is the only statement sent. When the
  lookup fails, the handler sends a rollback: if that succeeds the error is reported
  and \<open>False\<close> returned, if that fails too its error leaves the method.
\<close>

theorem updateStudentEmail_absent:
  assumes "i \<notin> ids (working c)" and "quiescent c"
  shows "case updateStudentEmail E c i em of
           (c', out, r) \<Rightarrow>
             stored c' = stored c \<and> working c' = working c \<and> r \<noteq> Inr True \<and>
             (if \<not> faulty E c
              then r = Inr False \<and> out = [NotFound i] \<and> log c' = log c @ [SelectById i]
              else log c' = log c @ [SelectById i, Rollback] \<and>
                   (if fault E (Suc (length (log c)))
                    then r = Inl (DbError InterfaceError) \<and> out = []
                    else r = Inr False \<and> out = [ErrUpdating OperationalError]))"
proof (cases "faulty E c")
  case True
  with assms(2) show ?thesis
    by (simp add: updateStudentEmail_def select_by_id_faulty except_Error_after_lookup)
next
  case False
  with assms(1) show ?thesis
    by (simp add: updateStudentEmail_def select_by_id_absent sent_def)
qed

text \<open>
  Claim C4. For an identifier that no row of the table has, \<^verbatim>\<open>deleteStudent\<close>
  never returns \<open>True\<close> and writes nothing: the stored table and the transaction's
  table are those before the call, and no \<open>DeleteById\<close> and no \<open>Commit\<close> is sent.
  When the lookup runs, the call reports that the student was not found and returns
  \<open>False\<close>, and the lookup is the only statement sent. When the lookup fails, the
  handler sends a rollback: if that succeeds the error is reported and \<open>False\<close>
  returned, if that fails too its error leaves the method.
\<close>

theorem deleteStudent_absent:
  assumes "i \<notin> ids (working c)" and "quiescent c"
  shows "case deleteStudent E c i of
           (c', out, r) \<Rightarrow>
             stored c' = stored c \<and> working c' = working c \<and> r \<noteq> Inr True \<and>
             (if \<not> faulty E c
              then r = Inr False \<and> out = [NotFound i] \<and> log c' = log c @ [SelectById i]
              else log c' = log c @ [SelectById i, Rollback] \<and>
                   (if fault E (Suc (length (log c)))
                    then r = Inl (DbError InterfaceError) \<and> out = []
                    else r = Inr False \<and> out = [ErrDeleting OperationalError]))"
proof (cases "faulty E c")
  case True
  with assms(2) show ?thesis
    by (simp add: deleteStudent_def select_by_id_faulty except_Error_after_lookup)
next
  case False
  with assms(1) show ?thesis
    by (simp add: deleteStudent_def select_by_id_absent sent_def)
qed

theorem updateStudentEmail_absent_witness:
  "7 \<notin> ids (working db0) \<and> quiescent db0 \<and>
   \<not> faulty env0 db0 \<and>
   (case updateStudentEmail env0 db0 7 ''new@x.com'' of
      (c', out, r) \<Rightarrow>
        stored c' = stored db0 \<and> working c' = working db0 \<and> r \<noteq> Inr True \<and>
        (if \<not> faulty env0 db0
         then r = Inr False \<and> out = [NotFound 7] \<and> log c' = log db0 @ [SelectById 7]
         else log c' = log db0 @ [SelectById 7, Rollback] \<and>
              (if fault env0 (Suc (length (log db0)))
               then r = Inl (DbError InterfaceError) \<and> out = []
               else r = Inr False \<and> out = [ErrUpdating OperationalError]))) \<and>
   faulty env_flaky db0 \<and> \<not> fault env_flaky (Suc (length (log db0))) \<and>
   (case updateStudentEmail env_flaky db0 7 ''new@x.com'' of
      (c', out, r) \<Rightarrow>
        stored c' = stored db0 \<and> working c' = working db0 \<and> r \<noteq> Inr True \<and>
        (if \<not> faulty env_flaky db0
         then r = Inr False \<and> out = [NotFound 7] \<and> log c' = log db0 @ [SelectById 7]
         else log c' = log db0 @ [SelectById 7, Rollback] \<and>
              (if fault env_flaky (Suc (length (log db0)))
               then r = Inl (DbError InterfaceError) \<and> out = []
               else r = Inr False \<and> out = [ErrUpdating OperationalError]))) \<and>
   faulty env_down db0 \<and> fault env_down (Suc (length (log db0))) \<and>
   (case updateStudentEmail env_down db0 7 ''new@x.com'' of
      (c', out, r) \<Rightarrow>
        stored c' = stored db0 \<and> working c' = working db0 \<and> r \<noteq> Inr True \<and>
        (if \<not> faulty env_down db0
         then r = Inr False \<and> out = [NotFound 7] \<and> log c' = log db0 @ [SelectById 7]
         else log c' = log db0 @ [SelectById 7, Rollback] \<and>
              (if fault env_down (Suc (length (log db0)))
               then r = Inl (DbError InterfaceError) \<and> out = []
               else r = Inr False \<and> out = [ErrUpdating OperationalError])))"
proof -
  have a: "7 \<notin> ids (working db0)"
    by (simp add: ids_def db0_def ada_def bob_def)
  have b: "quiescent db0"
    by (simp add: quiescent_def db0_def)
  have f0: "\<not> faulty env0 db0"
    by (simp add: faulty_def env0_def)
  have f1: "faulty env_flaky db0" and f2: "\<not> fault env_flaky (Suc (length (log db0)))"
    by (simp_all add: faulty_def env_flaky_def db0_def)
  have f3: "faulty env_down db0" and f4: "fault env_down (Suc (length (log db0)))"
    by (simp_all add: faulty_def env_down_def)
  note t = updateStudentEmail_absent [OF a b]
  from a b f0 f1 f2 f3 f4
    t [where E = env0 and em = "''new@x.com''"]
    t [where E = env_flaky and em = "''new@x.com''"]
    t [where E = env_down and em = "''new@x.com''"]
  show ?thesis by (intro conjI)
qed

theorem deleteStudent_absent_witness:
  "7 \<notin> ids (working db0) \<and> quiescent db0 \<and>
   \<not> faulty env0 db0 \<and>
   (case deleteStudent env0 db0 7 of
      (c', out, r) \<Rightarrow>
        stored c' = stored db0 \<and> working c' = working db0 \<and> r \<noteq> Inr True \<and>
        (if \<not> faulty env0 db0
         then r = Inr False \<and> out = [NotFound 7] \<and> log c' = log db0 @ [SelectById 7]
         else log c' = log db0 @ [SelectById 7, Rollback] \<and>
              (if fault env0 (Suc (length (log db0)))
               then r = Inl (DbError InterfaceError) \<and> out = []
               else r = Inr False \<and> out = [ErrDeleting OperationalError]))) \<and>
   faulty env_flaky db0 \<and> \<not> fault env_flaky (Suc (length (log db0))) \<and>
   (case deleteStudent env_flaky db0 7 of
      (c', out, r) \<Rightarrow>
        stored c' = stored db0 \<and> working c' = working db0 \<and> r \<noteq> Inr True \<and>
        (if \<not> faulty env_flaky db0
         then r = Inr False \<and> out = [NotFound 7] \<and> log c' = log db0 @ [SelectById 7]
         else log c' = log db0 @ [SelectById 7, Rollback] \<and>
              (if fault env_flaky (Suc (length (log db0)))
               then r = Inl (DbError InterfaceError) \<and> out = []
               else r = Inr False \<and> out = [ErrDeleting OperationalError]))) \<and>
   faulty env_down db0 \<and> fault env_down (Suc (length (log db0))) \<and>
   (case deleteStudent env_down db0 7 of
      (c', out, r) \<Rightarrow>
        stored c' = stored db0 \<and> working c' = working db0 \<and> r \<noteq> Inr True \<and>
        (if \<not> faulty env_down db0
         then r = Inr False \<and> out = [NotFound 7] \<and> log c' = log db0 @ [SelectById 7]
         else log c' = log db0 @ [SelectById 7, Rollback] \<and>
              (if fault env_down (Suc (length (log db0)))
               then r = Inl (DbError InterfaceError) \<and> out = []
               else r = Inr False \<and> out = [ErrDeleting OperationalError])))"
proof -
  have a: "7 \<notin> ids (working db0)"
    by (simp add: ids_def db0_def ada_def bob_def)
  have b: "quiescent db0"
    by (simp add: quiescent_def db0_def)
  have f0: "\<not> faulty env0 db0"
    by (simp add: faulty_def env0_def)
  have f1: "faulty env_flaky db0" and f2: "\<not> fault env_flaky (Suc (length (log db0)))"
    by (simp_all add: faulty_def env_flaky_def db0_def)
  have f3: "faulty env_down db0" and f4: "fault env_down (Suc (length (log db0)))"
    by (simp_all add: faulty_def env_down_def)
  note t = deleteStudent_absent [OF a b]
  from a b f0 f1 f2 f3 f4
    t [where E = env0]
    t [where E = env_flaky]
    t [where E = env_down]
  show ?thesis by (intro conjI)
qed

section \<open>Creating a student\<close>

lemma addStudent_nul:
  "has_nul fn \<or> has_nul ln \<or> has_nul em \<or> has_nul d \<Longrightarrow>
     addStudent E c fn ln em d = (c, [], Inl ValueError)"
  by (simp add: addStudent_def insert_returning_def)

lemma addStudent_accepted:
  assumes "\<not> (has_nul fn \<or> has_nul ln \<or> has_nul em \<or> has_nul d)"
    and "insert_accepted E c em d" and "date_in E d = Some dt"
  shows "addStudent E c fn ln em d =
           (c\<lparr>stored := working c @ [new_row (seq c) fn ln em dt],
              working := working c @ [new_row (seq c) fn ln em dt],
              seq := seq c + 1, rowcount := 1,
              log := log c @ [InsertReturning fn ln em d, Commit]\<rparr>,
            [Added fn ln (seq c)], Inr (Some (seq c)))"
  using assms
  by (simp add: addStudent_def insert_returning_def commit_def sent_def faulty_def Let_def
      insert_accepted_def new_row_def)

lemma addStudent_refused:
  assumes "\<not> (has_nul fn \<or> has_nul ln \<or> has_nul em \<or> has_nul d)"
    and "\<not> insert_accepted E c em d"
  shows "case addStudent E c fn ln em d of
           (c', out, r) \<Rightarrow>
             stored c' = stored c \<and> last (log c') = Rollback \<and>
             (if fault E (length (log c') - 1)
              then r = Inl (DbError InterfaceError) \<and> out = []
              else r = Inr None \<and> working c' = stored c \<and> (\<exists>e. out = [ErrAdding e]))"
  using assms
  by (auto simp: addStudent_def insert_returning_def commit_def rollback_def except_Error_def
      sent_def faulty_def Let_def insert_accepted_def
      split: option.splits)

lemma addStudent_Some:
  assumes "addStudent E c fn ln em d = (c', out, Inr (Some i))"
  shows "\<exists>dt. date_in E d = Some dt \<and> i = seq c \<and> i \<notin> ids (working c) \<and>
              em \<notin> email ` set (working c) \<and>
              \<not> (has_nul fn \<or> has_nul ln \<or> has_nul em \<or> has_nul d) \<and>
              working c' = working c @ [new_row i fn ln em dt] \<and>
              stored c' = working c' \<and> seq c' = seq c + 1 \<and>
              log c' = log c @ [InsertReturning fn ln em d, Commit] \<and>
              out = [Added fn ln i]"
  using assms
  by (auto simp: addStudent_def insert_returning_def commit_def rollback_def except_Error_def
      sent_def faulty_def Let_def list_ex_iff ids_def new_row_def
      split: if_splits option.splits prod.splits sum.splits exn.splits)




section \<open>Listing the students\<close>

text \<open>
  Claim C6. \<^verbatim>\<open>getAllStudents\<close> changes neither the stored table nor the
  transaction's table nor the sequence, and sends the one \<open>SelectAll\<close>. When the
  query fails it reports the error and returns the empty list; otherwise it returns
  exactly the rows of the table (as a multiset), in ascending order of identifier.
  The method is a total function of the model: it returns in both cases.
\<close>

theorem getAllStudents_ordered:
  "case getAllStudents E c of
     (c', out, rs) \<Rightarrow>
       stored c' = stored c \<and> working c' = working c \<and> seq c' = seq c \<and>
       log c' = log c @ [SelectAll] \<and>
       (if faulty E c then rs = [] \<and> out = [ErrRetrieving OperationalError]
        else mset rs = mset (working c) \<and> sorted (map student_id rs))"
  by (simp add: getAllStudents_def select_all_def sent_def)

theorem getAllStudents_ordered_witness:
  "\<not> faulty env0 db0 \<and> faulty env_down db0 \<and>
   (case getAllStudents env0 db0 of
     (c', out, rs) \<Rightarrow>
       stored c' = stored db0 \<and> working c' = working db0 \<and> seq c' = seq db0 \<and>
       log c' = log db0 @ [SelectAll] \<and>
       (if faulty env0 db0 then rs = [] \<and> out = [ErrRetrieving OperationalError]
        else mset rs = mset (working db0) \<and> sorted (map student_id rs))) \<and>
   (case getAllStudents env_down db0 of
     (c', out, rs) \<Rightarrow>
       stored c' = stored db0 \<and> working c' = working db0 \<and> seq c' = seq db0 \<and>
       log c' = log db0 @ [SelectAll] \<and>
       (if faulty env_down db0 then rs = [] \<and> out = [ErrRetrieving OperationalError]
        else mset rs = mset (working db0) \<and> sorted (map student_id rs)))"
proof -
  have a: "\<not> faulty env0 db0"
    by (simp add: faulty_def env0_def)
  have b: "faulty env_down db0"
    by (simp add: faulty_def env_down_def)
  from a b getAllStudents_ordered [where E = env0 and c = db0]
    getAllStudents_ordered [where E = env_down and c = db0]
  show ?thesis by (intro conjI)
qed

text \<open>
  Claim C7. When \<^verbatim>\<open>addStudent\<close> has returned an identifier, the rows with that
  identifier in the list that \<^verbatim>\<open>getAllStudents\<close> returns next are exactly one row,
  which carries the identifier, the first name, the last name and the email that
  were inserted and the date that the server read from the inserted text; the
  lookup by identifier of the update and delete paths finds the same names and
  email.
\<close>

theorem addStudent_then_lookup:
  assumes "addStudent E c fn ln em d = (c', out, Inr (Some i))" and "\<not> faulty E c'"
  shows "\<exists>dt. date_in E d = Some dt \<and>
           (case getAllStudents E c' of
              (c'', out', rs) \<Rightarrow> filter (has_id i) rs = [new_row i fn ln em dt]) \<and>
           fst (select_by_id E i c') = Inr (Some (fn, ln, em))"
proof -
  from addStudent_Some [OF assms(1)] obtain dt where
    dt: "date_in E d = Some dt" and fresh: "i \<notin> ids (working c)" and
    w: "working c' = working c @ [new_row i fn ln em dt]"
    by blast
  from fresh have old: "filter (has_id i) (working c) = []"
    by (simp add: filter_has_id_empty)
  have hit: "filter (has_id i) (working c') = [new_row i fn ln em dt]"
    by (simp add: w old has_id_def new_row_def)
  have "filter (has_id i) (sort_key student_id (working c')) = [new_row i fn ln em dt]"
    by (simp add: filter_sort hit)
  with assms(2) have a: "case getAllStudents E c' of
      (c'', out', rs) \<Rightarrow> filter (has_id i) rs = [new_row i fn ln em dt]"
    by (simp add: getAllStudents_def select_all_def)
  from assms(2) hit have b: "fst (select_by_id E i c') = Inr (Some (fn, ln, em))"
    by (simp add: select_by_id_def new_row_def)
  show ?thesis
  proof (intro exI [of _ dt] conjI)
    show "date_in E d = Some dt" by (rule dt)
    show "case getAllStudents E c' of
      (c'', out', rs) \<Rightarrow> filter (has_id i) rs = [new_row i fn ln em dt]" by (rule a)
    show "fst (select_by_id E i c') = Inr (Some (fn, ln, em))" by (rule b)
  qed
qed

theorem addStudent_then_lookup_witness:
  "addStudent env0 db0 ''Cy'' ''Day'' ''cy@x.com'' ''1990-01-01'' =
     (fst (addStudent env0 db0 ''Cy'' ''Day'' ''cy@x.com'' ''1990-01-01''),
      [Added ''Cy'' ''Day'' 3], Inr (Some 3)) \<and>
   \<not> faulty env0 (fst (addStudent env0 db0 ''Cy'' ''Day'' ''cy@x.com'' ''1990-01-01'')) \<and>
   (\<exists>dt. date_in env0 ''1990-01-01'' = Some dt \<and>
      (case getAllStudents env0 (fst (addStudent env0 db0 ''Cy'' ''Day'' ''cy@x.com'' ''1990-01-01'')) of
         (c'', out', rs) \<Rightarrow> filter (has_id 3) rs = [new_row 3 ''Cy'' ''Day'' ''cy@x.com'' dt]) \<and>
      fst (select_by_id env0 3 (fst (addStudent env0 db0 ''Cy'' ''Day'' ''cy@x.com'' ''1990-01-01'')))
        = Inr (Some (''Cy'', ''Day'', ''cy@x.com'')))"
proof -
  have a: "addStudent env0 db0 ''Cy'' ''Day'' ''cy@x.com'' ''1990-01-01'' =
     (fst (addStudent env0 db0 ''Cy'' ''Day'' ''cy@x.com'' ''1990-01-01''),
      [Added ''Cy'' ''Day'' 3], Inr (Some 3))"
    by (simp add: addStudent_def driver_defs sample_defs)
  have b: "\<not> faulty env0 (fst (addStudent env0 db0 ''Cy'' ''Day'' ''cy@x.com'' ''1990-01-01''))"
    by (simp add: faulty_def env0_def)
  from a b addStudent_then_lookup [OF a b] show ?thesis by (intro conjI)
qed

section \<open>Updating the email of a student\<close>

lemma updateStudentEmail_done:
  assumes "filter (has_id i) (working c) = [r]"
    and "\<not> fault E (length (log c))"
    and "\<not> fault E (Suc (length (log c)))"
    and "\<not> fault E (Suc (Suc (length (log c))))"
    and "\<not> email_taken i em (working c)"
    and "\<not> has_nul em"
  shows "updateStudentEmail E c i em =
           (c\<lparr>stored := set_email i em (working c), working := set_email i em (working c),
              rowcount := 1, log := log c @ [SelectById i, UpdateEmail em i, Commit]\<rparr>,
            [Updated (first_name r) (last_name r) (email r) em], Inr True)"
  using assms
  by (simp add: updateStudentEmail_def select_by_id_def update_email_def commit_def
      sent_def faulty_def Let_def set_email_def email_taken_def)

lemma updateStudentEmail_raced:
  assumes "filter (has_id i) (working c) = [r]"
    and "\<not> fault E (length (log c))"
    and "fault E (Suc (length (log c)))" and "row_gone E (Suc (length (log c)))"
    and "\<not> fault E (Suc (Suc (length (log c))))"
    and "\<not> has_nul em"
  shows "updateStudentEmail E c i em =
           (c\<lparr>stored := without i (working c), working := without i (working c),
              rowcount := 0, log := log c @ [SelectById i, UpdateEmail em i, Commit]\<rparr>,
            [NoChanges i], Inr False)"
  using assms
  by (simp add: updateStudentEmail_def select_by_id_def update_email_def commit_def
      sent_def faulty_def Let_def without_def)

text \<open>
  Claim C1. Take an identifier that a row of the table has, and a call of
  \<^verbatim>\<open>updateStudentEmail\<close> in which the lookup, the update and the commit raise
  nothing. Then there are two outcomes. Either the update affects exactly one row
  (\<open>rowcount\<close> is 1): the new email is committed, the update is reported and \<open>True\<close>
  returned. Or another session has deleted the row between the lookup and the
  update: the update affects no row (\<open>rowcount\<close> is 0), ``no change'' is reported and
  \<open>False\<close> returned. The program tests \<open>rowcount > 0\<close>; under the primary key such a
  count is 1.
\<close>

theorem updateStudentEmail_existing:
  assumes "consistent c" and "i \<in> ids (stored c)"
    and "\<not> fault E (length (log c))"
    and "\<not> has_nul em"
    and "if fault E (Suc (length (log c))) then row_gone E (Suc (length (log c)))
         else \<not> email_taken i em (stored c)"
    and "\<not> fault E (Suc (Suc (length (log c))))"
  shows "\<exists>r\<in>set (stored c). student_id r = i \<and>
           updateStudentEmail E c i em =
             (if fault E (Suc (length (log c)))
              then (c\<lparr>stored := without i (stored c), working := without i (stored c),
                      rowcount := 0,
                      log := log c @ [SelectById i, UpdateEmail em i, Commit]\<rparr>,
                    [NoChanges i], Inr False)
              else (c\<lparr>stored := set_email i em (stored c),
                      working := set_email i em (stored c), rowcount := 1,
                      log := log c @ [SelectById i, UpdateEmail em i, Commit]\<rparr>,
                    [Updated (first_name r) (last_name r) (email r) em], Inr True))"
proof -
  from assms(1,2) have w: "working c = stored c"
    and d: "distinct (map student_id (working c))" and m: "i \<in> ids (working c)"
    by (simp_all add: consistent_def quiescent_def constraints_def)
  from filter_has_id_single [OF d m] obtain r where
    r: "filter (has_id i) (working c) = [r]" and mem: "r \<in> set (working c)"
    and rid: "student_id r = i"
    by blast
  have "updateStudentEmail E c i em =
             (if fault E (Suc (length (log c)))
              then (c\<lparr>stored := without i (stored c), working := without i (stored c),
                      rowcount := 0,
                      log := log c @ [SelectById i, UpdateEmail em i, Commit]\<rparr>,
                    [NoChanges i], Inr False)
              else (c\<lparr>stored := set_email i em (stored c),
                      working := set_email i em (stored c), rowcount := 1,
                      log := log c @ [SelectById i, UpdateEmail em i, Commit]\<rparr>,
                    [Updated (first_name r) (last_name r) (email r) em], Inr True))"
  proof (cases "fault E (Suc (length (log c)))")
    case True
    with assms(5) have "row_gone E (Suc (length (log c)))" by simp
    from updateStudentEmail_raced [OF r assms(3) True this assms(6) assms(4)] True w
    show ?thesis by simp
  next
    case False
    with assms(5) w have "\<not> email_taken i em (working c)" by simp
    from updateStudentEmail_done [OF r assms(3) False assms(6) this assms(4)] False w
    show ?thesis by simp
  qed
  with mem rid w show ?thesis by auto
qed

lemma set_email_same:
  assumes "distinct (map student_id rows)" and "r \<in> set rows"
  shows "set_email (student_id r) (email r) rows = rows"
proof -
  have only: "\<And>x. x \<in> set rows \<Longrightarrow> has_id (student_id r) x \<Longrightarrow> x = r"
    using assms by (auto simp: has_id_def distinct_map dest: inj_onD)
  show ?thesis
    unfolding set_email_def
  proof (rule map_idI)
    fix x
    assume x: "x \<in> set rows"
    show "(if has_id (student_id r) x then x\<lparr>email := email r\<rparr> else x) = x"
    proof (cases "has_id (student_id r) x")
      case True
      with x only have "x = r" by blast
      then show ?thesis by simp
    next
      case False
      then show ?thesis by simp
    qed
  qed
qed

lemma email_not_taken_own:
  assumes "distinct (map email rows)" and "r \<in> set rows"
  shows "\<not> email_taken (student_id r) (email r) rows"
  using assms by (auto simp: email_taken_def list_ex_iff distinct_map dest: inj_onD)

text \<open>
  Claim C10. For a row of the table, \<^verbatim>\<open>updateStudentEmail\<close> with the row's own
  identifier and its current email sends the lookup, the update and the commit,
  reports the update and returns \<open>True\<close>, provided the three calls are not
  disturbed. The table is left as it was; one row is counted as affected.
\<close>

theorem updateStudentEmail_same_email:
  assumes "consistent c" and "r \<in> set (stored c)"
    and "\<not> fault E (length (log c))"
    and "\<not> fault E (length (log c) + 1)"
    and "\<not> fault E (length (log c) + 2)"
  shows "updateStudentEmail E c (student_id r) (email r) =
           (c\<lparr>rowcount := 1,
              log := log c @ [SelectById (student_id r),
                              UpdateEmail (email r) (student_id r), Commit]\<rparr>,
            [Updated (first_name r) (last_name r) (email r) (email r)], Inr True)"
proof -
  from assms(1) have w: "working c = stored c"
    and d: "distinct (map student_id (working c))" and e: "distinct (map email (working c))"
    and n: "list_all (\<lambda>r. \<not> has_nul (first_name r) \<and> \<not> has_nul (last_name r) \<and>
                   \<not> has_nul (email r)) (working c)"
    by (simp_all add: consistent_def quiescent_def constraints_def)
  from assms(2) w have mem: "r \<in> set (working c)" by simp
  then have m: "student_id r \<in> ids (working c)" by (simp add: ids_def)
  from n mem have nul: "\<not> has_nul (email r)" by (simp add: list_all_iff)
  from filter_has_id_single [OF d m] obtain r' where
    r': "filter (has_id (student_id r)) (working c) = [r']" and "r' \<in> set (working c)"
    and "student_id r' = student_id r"
    by blast
  with d mem have "r' = r"
    by (auto simp: distinct_map dest: inj_onD)
  with r' have hit: "filter (has_id (student_id r)) (working c) = [r]" by simp
  have free: "\<not> email_taken (student_id r) (email r) (working c)"
    by (rule email_not_taken_own [OF e mem])
  have same: "set_email (student_id r) (email r) (working c) = working c"
    by (rule set_email_same [OF d mem])
  from assms(4,5) have f1: "\<not> fault E (Suc (length (log c)))"
    and f2: "\<not> fault E (Suc (Suc (length (log c))))"
    by simp_all
  from updateStudentEmail_done [OF hit assms(3) f1 f2 free nul] same w
  show ?thesis by simp
qed


theorem updateStudentEmail_existing_witness:
  "consistent db0 \<and> 1 \<in> ids (stored db0) \<and>
   \<not> fault env0 (length (log db0)) \<and> \<not> has_nul ''ada@new.com'' \<and>
   (if fault env0 (Suc (length (log db0))) then row_gone env0 (Suc (length (log db0)))
    else \<not> email_taken 1 ''ada@new.com'' (stored db0)) \<and>
   \<not> fault env0 (Suc (Suc (length (log db0)))) \<and>
   (\<exists>r\<in>set (stored db0). student_id r = 1 \<and>
      updateStudentEmail env0 db0 1 ''ada@new.com'' =
        (if fault env0 (Suc (length (log db0)))
         then (db0\<lparr>stored := without 1 (stored db0), working := without 1 (stored db0),
                 rowcount := 0,
                 log := log db0 @ [SelectById 1, UpdateEmail ''ada@new.com'' 1, Commit]\<rparr>,
               [NoChanges 1], Inr False)
         else (db0\<lparr>stored := set_email 1 ''ada@new.com'' (stored db0),
                 working := set_email 1 ''ada@new.com'' (stored db0), rowcount := 1,
                 log := log db0 @ [SelectById 1, UpdateEmail ''ada@new.com'' 1, Commit]\<rparr>,
               [Updated (first_name r) (last_name r) (email r) ''ada@new.com''], Inr True))) \<and>
   snd (updateStudentEmail env0 db0 1 ''ada@new.com'') =
     ([Updated ''Ada'' ''Lovelace'' ''ada@x.com'' ''ada@new.com''], Inr True) \<and>
   \<not> fault env_raced (length (log db0)) \<and> \<not> has_nul ''ada@new.com'' \<and>
   (if fault env_raced (Suc (length (log db0))) then row_gone env_raced (Suc (length (log db0)))
    else \<not> email_taken 1 ''ada@new.com'' (stored db0)) \<and>
   \<not> fault env_raced (Suc (Suc (length (log db0)))) \<and>
   (\<exists>r\<in>set (stored db0). student_id r = 1 \<and>
      updateStudentEmail env_raced db0 1 ''ada@new.com'' =
        (if fault env_raced (Suc (length (log db0)))
         then (db0\<lparr>stored := without 1 (stored db0), working := without 1 (stored db0),
                 rowcount := 0,
                 log := log db0 @ [SelectById 1, UpdateEmail ''ada@new.com'' 1, Commit]\<rparr>,
               [NoChanges 1], Inr False)
         else (db0\<lparr>stored := set_email 1 ''ada@new.com'' (stored db0),
                 working := set_email 1 ''ada@new.com'' (stored db0), rowcount := 1,
                 log := log db0 @ [SelectById 1, UpdateEmail ''ada@new.com'' 1, Commit]\<rparr>,
               [Updated (first_name r) (last_name r) (email r) ''ada@new.com''], Inr True))) \<and>
   snd (updateStudentEmail env_raced db0 1 ''ada@new.com'') = ([NoChanges 1], Inr False)"
proof -
  have a: "consistent db0"
    by (simp add: consistent_def constraints_def quiescent_def has_nul_def sample_defs)
  have b: "1 \<in> ids (stored db0)"
    by (simp add: ids_def sample_defs)
  have n: "\<not> has_nul ''ada@new.com''"
    by (simp add: has_nul_def)
  have f0: "\<not> fault env0 (length (log db0))"
    and f1: "if fault env0 (Suc (length (log db0))) then row_gone env0 (Suc (length (log db0)))
             else \<not> email_taken 1 ''ada@new.com'' (stored db0)"
    and f2: "\<not> fault env0 (Suc (Suc (length (log db0))))"
    by (simp_all add: email_taken_def sample_defs)
  have g0: "\<not> fault env_raced (length (log db0))"
    and g1: "if fault env_raced (Suc (length (log db0)))
             then row_gone env_raced (Suc (length (log db0)))
             else \<not> email_taken 1 ''ada@new.com'' (stored db0)"
    and g2: "\<not> fault env_raced (Suc (Suc (length (log db0))))"
    by (simp_all add: email_taken_def sample_defs)
  have v0: "snd (updateStudentEmail env0 db0 1 ''ada@new.com'') =
     ([Updated ''Ada'' ''Lovelace'' ''ada@x.com'' ''ada@new.com''], Inr True)"
    by (simp add: updateStudentEmail_def driver_defs sample_defs)
  have v1: "snd (updateStudentEmail env_raced db0 1 ''ada@new.com'') =
     ([NoChanges 1], Inr False)"
    by (simp add: updateStudentEmail_def driver_defs sample_defs)
  note t0 = updateStudentEmail_existing [OF a b f0 n f1 f2]
  note t1 = updateStudentEmail_existing [OF a b g0 n g1 g2]
  from a b f0 n f1 f2 t0 v0 g0 g1 g2 t1 v1 show ?thesis by (intro conjI)
qed

theorem updateStudentEmail_same_email_witness:
  "consistent db0 \<and> ada \<in> set (stored db0) \<and>
   \<not> fault env0 (length (log db0)) \<and> \<not> fault env0 (length (log db0) + 1) \<and>
   \<not> fault env0 (length (log db0) + 2) \<and>
   updateStudentEmail env0 db0 (student_id ada) (email ada) =
     (db0\<lparr>rowcount := 1,
          log := log db0 @ [SelectById (student_id ada),
                            UpdateEmail (email ada) (student_id ada), Commit]\<rparr>,
      [Updated (first_name ada) (last_name ada) (email ada) (email ada)], Inr True)"
proof -
  have a: "consistent db0"
    by (simp add: consistent_def constraints_def quiescent_def has_nul_def sample_defs)
  have b: "ada \<in> set (stored db0)"
    by (simp add: db0_def)
  have f0: "\<not> fault env0 (length (log db0))"
    and f1: "\<not> fault env0 (length (log db0) + 1)"
    and f2: "\<not> fault env0 (length (log db0) + 2)"
    by (simp_all add: env0_def)
  from a b f0 f1 f2 updateStudentEmail_same_email [OF a b f0 f1 f2]
  show ?thesis by (intro conjI)
qed

section \<open>The menu\<close>

lemma input_Inr: "input ins = Inr (s, rest) \<longleftrightarrow> ins = Line s # rest"
  by (cases ins rule: input.cases) auto

lemma choice_add_changed:
  assumes "choice_add E db ins = (r, db', out, ins')" and "db' \<noteq> db"
  shows "\<exists>l1 l2 l3 l4.
           ins = Line l1 # Line l2 # Line l3 # Line l4 # ins' \<and> strptime E (strip E l4) \<and>
           db' = fst (addStudent E db (strip E l1) (strip E l2) (strip E l3) (strip E l4))"
  using assms
  by (auto simp: choice_add_def Let_def input_Inr split: sum.splits prod.splits if_splits)

lemma choice_update_changed:
  assumes "choice_update E db ins = (r, db', out, ins')" and "db' \<noteq> db"
  shows "\<exists>l1 l2 sid.
           ins = Line l1 # Line l2 # ins' \<and> py_int E (strip E l1) = Some sid \<and>
           db' = fst (updateStudentEmail E db sid (strip E l2))"
  using assms
  by (auto simp: choice_update_def input_Inr
      split: sum.splits prod.splits option.splits if_splits)

lemma choice_delete_changed:
  assumes "choice_delete E db ins = (r, db', out, ins')" and "db' \<noteq> db"
  shows "\<exists>l1 l2 sid.
           ins = Line l1 # Line l2 # ins' \<and> py_int E (strip E l1) = Some sid \<and>
           lower E (strip E l2) = ''yes'' \<and> db' = fst (deleteStudent E db sid)"
  using assms
  by (auto simp: choice_delete_def Let_def input_Inr
      split: sum.splits prod.splits option.splits if_splits)

text \<open>
  Claim C8. In the branch of choice 2 the stripped date is given to
  \<^verbatim>\<open>strptime\<close> before anything else is done with the four lines. When it does not
  parse, the branch prints the message about the format and ends with the
  connection exactly as it was: no statement has been sent, \<^verbatim>\<open>addStudent\<close> has not
  been called. When it parses, \<^verbatim>\<open>addStudent\<close> is called on the stripped lines.
  Conversely, on any input at all, the connection is changed by the branch only
  when four lines were read, the stripped date parsed, and the change is the one of
  \<^verbatim>\<open>addStudent\<close> on the stripped lines.
\<close>

theorem choice_add_validates_date:
  "choice_add E db (Line l1 # Line l2 # Line l3 # Line l4 # rest) =
     (if strptime E (strip E l4)
      then (case addStudent E db (strip E l1) (strip E l2) (strip E l3) (strip E l4) of
              (db1, out, Inr _) \<Rightarrow> (None, db1, AddHeader # out, rest)
            | (db1, out, Inl ex) \<Rightarrow>
                (if ex = ValueError
                 then (None, db1, AddHeader # out @ [InvalidDateFormat], rest)
                 else (Some ex, db1, AddHeader # out, rest)))
      else (None, db, [AddHeader, InvalidDateFormat], rest)) \<and>
   (choice_add E db ins = (r, db', out', ins') \<and> db' \<noteq> db \<longrightarrow>
      (\<exists>l1 l2 l3 l4.
         ins = Line l1 # Line l2 # Line l3 # Line l4 # ins' \<and> strptime E (strip E l4) \<and>
         db' = fst (addStudent E db (strip E l1) (strip E l2) (strip E l3) (strip E l4))))"
proof (intro conjI impI)
  show "choice_add E db (Line l1 # Line l2 # Line l3 # Line l4 # rest) =
     (if strptime E (strip E l4)
      then (case addStudent E db (strip E l1) (strip E l2) (strip E l3) (strip E l4) of
              (db1, out, Inr _) \<Rightarrow> (None, db1, AddHeader # out, rest)
            | (db1, out, Inl ex) \<Rightarrow>
                (if ex = ValueError
                 then (None, db1, AddHeader # out @ [InvalidDateFormat], rest)
                 else (Some ex, db1, AddHeader # out, rest)))
      else (None, db, [AddHeader, InvalidDateFormat], rest))"
    by (simp add: choice_add_def)
next
  assume "choice_add E db ins = (r, db', out', ins') \<and> db' \<noteq> db"
  then show "\<exists>l1 l2 l3 l4.
         ins = Line l1 # Line l2 # Line l3 # Line l4 # ins' \<and> strptime E (strip E l4) \<and>
         db' = fst (addStudent E db (strip E l1) (strip E l2) (strip E l3) (strip E l4))"
    by (elim conjE) (rule choice_add_changed)
qed

theorem choice_add_validates_date_witness:
  "\<not> strptime env0 (strip env0 ''01/01/1990'') \<and>
   choice_add env0 db0 [Line ''Cy'', Line ''Day'', Line ''cy@x.com'', Line ''01/01/1990''] =
     (None, db0, [AddHeader, InvalidDateFormat], []) \<and>
   strptime env0 (strip env0 '' 1990-01-01 '') \<and>
   choice_add env0 db0 [Line ''Cy'', Line ''Day'', Line ''cy@x.com'', Line '' 1990-01-01 ''] =
     (None, fst (addStudent env0 db0 ''Cy'' ''Day'' ''cy@x.com'' ''1990-01-01''),
      [AddHeader, Added ''Cy'' ''Day'' 3], []) \<and>
   fst (addStudent env0 db0 ''Cy'' ''Day'' ''cy@x.com'' ''1990-01-01'') \<noteq> db0 \<and>
   (\<exists>l1 l2 l3 l4.
      [Line ''Cy'', Line ''Day'', Line ''cy@x.com'', Line '' 1990-01-01 ''] =
        [Line l1, Line l2, Line l3, Line l4] \<and>
      strptime env0 (strip env0 l4) \<and>
      fst (addStudent env0 db0 ''Cy'' ''Day'' ''cy@x.com'' ''1990-01-01'') =
        fst (addStudent env0 db0 (strip env0 l1) (strip env0 l2) (strip env0 l3)
               (strip env0 l4)))"
proof -
  have bad: "\<not> strptime env0 (strip env0 ''01/01/1990'')"
    by (simp add: env0_def text_defs)
  have good: "strptime env0 (strip env0 '' 1990-01-01 '')"
    by (simp add: env0_def text_defs)
  have run: "choice_add env0 db0
      [Line ''Cy'', Line ''Day'', Line ''cy@x.com'', Line '' 1990-01-01 ''] =
     (None, fst (addStudent env0 db0 ''Cy'' ''Day'' ''cy@x.com'' ''1990-01-01''),
      [AddHeader, Added ''Cy'' ''Day'' 3], [])"
    by (simp add: choice_add_def addStudent_def driver_defs sample_defs text_defs)
  have "log (fst (addStudent env0 db0 ''Cy'' ''Day'' ''cy@x.com'' ''1990-01-01'')) \<noteq> log db0"
    by (simp add: addStudent_def driver_defs sample_defs)
  then have changed:
    "fst (addStudent env0 db0 ''Cy'' ''Day'' ''cy@x.com'' ''1990-01-01'') \<noteq> db0"
    by auto
  note t1 = choice_add_validates_date
    [where E = env0 and db = db0 and ?l1.0 = "''Cy''" and ?l2.0 = "''Day''"
      and ?l3.0 = "''cy@x.com''" and ?l4.0 = "''01/01/1990''" and rest = "[]"
      and ins = "[Line ''Cy'', Line ''Day'', Line ''cy@x.com'', Line '' 1990-01-01 '']"
      and r = None
      and db' = "fst (addStudent env0 db0 ''Cy'' ''Day'' ''cy@x.com'' ''1990-01-01'')"
      and out' = "[AddHeader, Added ''Cy'' ''Day'' 3]" and ins' = "[]"]
  from t1 bad have a: "choice_add env0 db0
      [Line ''Cy'', Line ''Day'', Line ''cy@x.com'', Line ''01/01/1990''] =
     (None, db0, [AddHeader, InvalidDateFormat], [])"
    by simp
  from t1 run changed have b: "\<exists>l1 l2 l3 l4.
      [Line ''Cy'', Line ''Day'', Line ''cy@x.com'', Line '' 1990-01-01 ''] =
        [Line l1, Line l2, Line l3, Line l4] \<and>
      strptime env0 (strip env0 l4) \<and>
      fst (addStudent env0 db0 ''Cy'' ''Day'' ''cy@x.com'' ''1990-01-01'') =
        fst (addStudent env0 db0 (strip env0 l1) (strip env0 l2) (strip env0 l3)
               (strip env0 l4))"
    by blast
  from bad a good run changed b show ?thesis by (intro conjI)
qed

text \<open>
  Claim C9, as amended. In the branch of choice 4, \<^verbatim>\<open>deleteStudent\<close> is called
  only when the confirmation, after \<^verbatim>\<open>strip()\<close> and \<^verbatim>\<open>lower()\<close>, is
  \<open>''yes''\<close>; on every other confirmation the branch prints that the deletion is
  cancelled and leaves the connection exactly as it was. On any input at all, the
  connection is changed by the branch only when the identifier was converted and
  the normalised confirmation was \<open>''yes''\<close>.
\<close>

theorem choice_delete_confirmed:
  "(py_int E (strip E l1) = Some sid \<longrightarrow>
      choice_delete E db (Line l1 # Line l2 # rest) =
        (if lower E (strip E l2) = ''yes''
         then (case deleteStudent E db sid of
                 (db1, out, Inr _) \<Rightarrow> (None, db1, DeleteHeader # out, rest)
               | (db1, out, Inl ex) \<Rightarrow>
                   (if ex = ValueError
                    then (None, db1, DeleteHeader # out @ [InvalidStudentId], rest)
                    else (Some ex, db1, DeleteHeader # out, rest)))
         else (None, db, [DeleteHeader, DeletionCancelled], rest))) \<and>
   (choice_delete E db ins = (r, db', out', ins') \<and> db' \<noteq> db \<longrightarrow>
      (\<exists>l1 l2 sid.
         ins = Line l1 # Line l2 # ins' \<and> py_int E (strip E l1) = Some sid \<and>
         lower E (strip E l2) = ''yes'' \<and> db' = fst (deleteStudent E db sid)))"
proof (intro conjI impI)
  assume "py_int E (strip E l1) = Some sid"
  then show "choice_delete E db (Line l1 # Line l2 # rest) =
        (if lower E (strip E l2) = ''yes''
         then (case deleteStudent E db sid of
                 (db1, out, Inr _) \<Rightarrow> (None, db1, DeleteHeader # out, rest)
               | (db1, out, Inl ex) \<Rightarrow>
                   (if ex = ValueError
                    then (None, db1, DeleteHeader # out @ [InvalidStudentId], rest)
                    else (Some ex, db1, DeleteHeader # out, rest)))
         else (None, db, [DeleteHeader, DeletionCancelled], rest))"
    by (simp add: choice_delete_def)
next
  assume "choice_delete E db ins = (r, db', out', ins') \<and> db' \<noteq> db"
  then show "\<exists>l1 l2 sid.
         ins = Line l1 # Line l2 # ins' \<and> py_int E (strip E l1) = Some sid \<and>
         lower E (strip E l2) = ''yes'' \<and> db' = fst (deleteStudent E db sid)"
    by (elim conjE) (rule choice_delete_changed)
qed

theorem choice_delete_confirmed_witness:
  "py_int env0 (strip env0 ''1'') = Some 1 \<and> lower env0 (strip env0 ''no'') \<noteq> ''yes'' \<and>
   choice_delete env0 db0 [Line ''1'', Line ''no''] =
     (None, db0, [DeleteHeader, DeletionCancelled], []) \<and>
   lower env0 (strip env0 ''yes'') = ''yes'' \<and>
   choice_delete env0 db0 [Line ''1'', Line ''yes''] =
     (None, fst (deleteStudent env0 db0 1),
      [DeleteHeader, Deleted ''Ada'' ''Lovelace'' 1 ''ada@x.com''], []) \<and>
   fst (deleteStudent env0 db0 1) \<noteq> db0 \<and>
   (\<exists>l1 l2 sid.
      [Line ''1'', Line ''yes''] = [Line l1, Line l2] \<and>
      py_int env0 (strip env0 l1) = Some sid \<and>
      lower env0 (strip env0 l2) = ''yes'' \<and>
      fst (deleteStudent env0 db0 1) = fst (deleteStudent env0 db0 sid))"
proof -
  have p: "py_int env0 (strip env0 ''1'') = Some 1"
    by (simp add: env0_def text_defs)
  have n: "lower env0 (strip env0 ''no'') \<noteq> ''yes''"
    by (simp add: text_defs)
  have y: "lower env0 (strip env0 ''yes'') = ''yes''"
    by (simp add: text_defs)
  have run: "choice_delete env0 db0 [Line ''1'', Line ''yes''] =
     (None, fst (deleteStudent env0 db0 1),
      [DeleteHeader, Deleted ''Ada'' ''Lovelace'' 1 ''ada@x.com''], [])"
    by (simp add: choice_delete_def deleteStudent_def driver_defs sample_defs text_defs)
  have "log (fst (deleteStudent env0 db0 1)) \<noteq> log db0"
    by (simp add: deleteStudent_def driver_defs sample_defs)
  then have changed: "fst (deleteStudent env0 db0 1) \<noteq> db0"
    by auto
  note t1 = choice_delete_confirmed
    [where E = env0 and db = db0 and ?l1.0 = "''1''" and ?l2.0 = "''no''" and sid = 1
      and rest = "[]" and ins = "[Line ''1'', Line ''yes'']" and r = None
      and db' = "fst (deleteStudent env0 db0 1)"
      and out' = "[DeleteHeader, Deleted ''Ada'' ''Lovelace'' 1 ''ada@x.com'']"
      and ins' = "[]"]
  from t1 p n have a: "choice_delete env0 db0 [Line ''1'', Line ''no''] =
     (None, db0, [DeleteHeader, DeletionCancelled], [])"
    by simp
  from t1 run changed have b: "\<exists>l1 l2 sid.
      [Line ''1'', Line ''yes''] = [Line l1, Line l2] \<and>
      py_int env0 (strip env0 l1) = Some sid \<and>
      lower env0 (strip env0 l2) = ''yes'' \<and>
      fst (deleteStudent env0 db0 1) = fst (deleteStudent env0 db0 sid)"
    by blast
  from p n a y run changed b show ?thesis by (intro conjI)
qed

text \<open>
  The claim C9 as it was stated takes the confirmation to be the string
  \<open>''yes''\<close> itself. The response \<open>''YES''\<close> is another string, and student 1 is
  deleted all the same.
\<close>

theorem choice_delete_uppercase_counterexample:
  "''YES'' \<noteq> ''yes'' \<and>
   choice_delete env0 db0 [Line ''1'', Line ''YES''] =
     (None,
      db0\<lparr>stored := [bob], working := [bob], rowcount := 1,
          log := [SelectById 1, DeleteById 1, Commit]\<rparr>,
      [DeleteHeader, Deleted ''Ada'' ''Lovelace'' 1 ''ada@x.com''], [])"
  by (simp add: choice_delete_def deleteStudent_def driver_defs sample_defs text_defs)

section \<open>The exit status\<close>

lemma menu_choice_Break:
  "menu_choice E db ch ins = (Inr Break, db1, out, ins1) \<Longrightarrow> out = [Exiting] \<and> db1 = db"
  by (auto simp: menu_choice_def split: if_splits prod.splits option.splits)

lemma main_loop_break:
  "main_loop E db ins = (None, db', out) \<Longrightarrow> Exiting \<in> set out"
proof (induction "length ins" arbitrary: db ins db' out rule: less_induct)
  case less
  show ?case
  proof (cases "input ins")
    case (Inl ex)
    with less.prems show ?thesis
      by (subst (asm) main_loop.simps) simp
  next
    case (Inr p)
    obtain l ins1 where p: "p = (l, ins1)" by (cases p)
    obtain x db1 out1 ins2 where mc: "menu_choice E db (strip E l) ins1 = (x, db1, out1, ins2)"
      by (metis prod_cases4)
    from Inr p have a: "length ins1 < length ins" by (auto dest: input_shorter)
    from mc have b: "length ins2 \<le> length ins1" by (rule menu_choice_length)
    show ?thesis
    proof (cases x)
      case (Inl ex)
      with less.prems Inr p mc show ?thesis
        by (subst (asm) main_loop.simps) simp
    next
      case inr: (Inr k)
      show ?thesis
      proof (cases k)
        case Break
        with inr mc have "out1 = [Exiting]" by (auto dest: menu_choice_Break)
        with less.prems Inr p mc inr Break show ?thesis
          by (subst (asm) main_loop.simps) auto
      next
        case Continue
        show ?thesis
        proof (cases "input ins2")
          case (Inl ex)
          with less.prems \<open>input ins = Inr p\<close> p mc inr Continue show ?thesis
            by (subst (asm) main_loop.simps) simp
        next
          case r2: (Inr q)
          obtain l' ins3 where q: "q = (l', ins3)" by (cases q)
          from r2 q have c: "length ins3 < length ins2" by (auto dest: input_shorter)
          obtain r db2 out2 where rec: "main_loop E db1 ins3 = (r, db2, out2)"
            by (metis prod_cases3)
          from less.prems \<open>input ins = Inr p\<close> p mc inr Continue r2 q rec
          have "r = None" and "out = Menu # out1 @ out2"
            by (subst (asm) main_loop.simps, simp)+
          with rec less.hyps [of ins3 db1 db2 out2] a b c show ?thesis by simp
        qed
      qed
    qed
  qed
qed

text \<open>
  Claim C2. When the connection attempt fails, \<^verbatim>\<open>main\<close> prints the error of the
  connection and the message of its handler and returns; the status of the process
  is 0, so of the two alternatives of the claim it is the error message that holds,
  not a status other than 0. When the loop is left by the exit choice, \<^verbatim>\<open>main\<close>
  closes the connection and returns, and the status is 0.
\<close>

theorem main_exit_code:
  "(connect_result E = Inl e \<longrightarrow>
      main E ins = (None, [Banner, ErrConnecting e, AnErrorOccurred (DbError e), ThankYou]) \<and>
      exit_code (main E ins) = 0) \<and>
   (connect_result E = Inr db \<and> main_loop E db ins = (None, db1, out1) \<longrightarrow>
      main E ins = (None, Banner # Connected # out1 @ [Closed, ThankYou]) \<and>
      Exiting \<in> set out1 \<and> exit_code (main E ins) = 0)"
proof (intro conjI impI)
  assume c: "connect_result E = Inl e"
  then show "main E ins =
      (None, [Banner, ErrConnecting e, AnErrorOccurred (DbError e), ThankYou])"
    by (simp add: main_def init_def except_Exception_def is_Exception_def)
  with c show "exit_code (main E ins) = 0"
    by (simp add: exit_code_def)
next
  assume c: "connect_result E = Inr db \<and> main_loop E db ins = (None, db1, out1)"
  then show m: "main E ins = (None, Banner # Connected # out1 @ [Closed, ThankYou])"
    by (simp add: main_def init_def close_def)
  from c have "main_loop E db ins = (None, db1, out1)"
    by (rule conjunct2)
  then show "Exiting \<in> set out1"
    by (rule main_loop_break)
  from m show "exit_code (main E ins) = 0"
    by (simp add: exit_code_def)
qed

theorem main_exit_code_witness:
  "connect_result env_refused = Inl OperationalError \<and>
   main env_refused [Line ''5''] =
     (None, [Banner, ErrConnecting OperationalError,
             AnErrorOccurred (DbError OperationalError), ThankYou]) \<and>
   exit_code (main env_refused [Line ''5'']) = 0 \<and>
   connect_result env0 = Inr db0 \<and>
   main_loop env0 db0 [Line ''5''] = (None, db0, [Menu, Exiting]) \<and>
   main env0 [Line ''5''] = (None, Banner # Connected # [Menu, Exiting] @ [Closed, ThankYou]) \<and>
   Exiting \<in> set [Menu, Exiting] \<and>
   exit_code (main env0 [Line ''5'']) = 0"
proof -
  have a: "connect_result env_refused = Inl OperationalError"
    by (simp add: env_refused_def env0_def)
  have b: "connect_result env0 = Inr db0"
    by (simp add: env0_def)
  have c: "main_loop env0 db0 [Line ''5''] = (None, db0, [Menu, Exiting])"
    by (simp add: main_loop.simps menu_choice_def text_defs)
  note t1 = main_exit_code [where E = env_refused and e = OperationalError
      and ins = "[Line ''5'']" and db = db0 and ?db1.0 = db0 and ?out1.0 = "[]"]
  note t2 = main_exit_code [where E = env0 and e = OperationalError
      and ins = "[Line ''5'']" and db = db0 and ?db1.0 = db0 and ?out1.0 = "[Menu, Exiting]"]
  from t1 a have d: "main env_refused [Line ''5''] =
     (None, [Banner, ErrConnecting OperationalError,
             AnErrorOccurred (DbError OperationalError), ThankYou]) \<and>
     exit_code (main env_refused [Line ''5'']) = 0"
    by blast
  from t2 b c have e: "main env0 [Line ''5''] =
       (None, Banner # Connected # [Menu, Exiting] @ [Closed, ThankYou]) \<and>
     Exiting \<in> set [Menu, Exiting] \<and> exit_code (main env0 [Line ''5'']) = 0"
    by blast
  from a b c d e show ?thesis by blast
qed

section \<open>The invariant along the menu loop\<close>

text \<open>
  The theorems above assume of the connection that the table satisfies its
  constraints and that no change is pending. Every operation that returns, or that
  raises \<^verbatim>\<open>ValueError\<close>, keeps this, hence every branch of the menu that completes,
  and the loop: it holds of every connection from which the program goes on.
\<close>

lemma ids_set_email: "map student_id (set_email i em rows) = map student_id rows"
  by (induction rows) (auto simp: set_email_def)

lemma set_email_absent: "i \<notin> ids rows \<Longrightarrow> set_email i em rows = rows"
  unfolding set_email_def by (rule map_idI) (auto simp: ids_def has_id_def)

lemma emails_set_email:
  "email ` set (set_email i em rows) \<subseteq> insert em (email ` set rows)"
  by (auto simp: set_email_def)

lemma distinct_emails_set_email:
  assumes "distinct (map student_id rows)" and "distinct (map email rows)"
    and "\<not> email_taken i em rows"
  shows "distinct (map email (set_email i em rows))"
  using assms
proof (induction rows)
  case Nil
  show ?case by (simp add: set_email_def)
next
  case (Cons x xs)
  from Cons.prems have free: "\<not> email_taken i em xs"
    by (simp add: email_taken_def)
  from Cons have IH: "distinct (map email (set_email i em xs))"
    by (simp add: email_taken_def)
  show ?case
  proof (cases "has_id i x")
    case True
    with Cons.prems(1) have "i \<notin> ids xs"
      by (auto simp: has_id_def ids_def)
    then have same: "set_email i em xs = xs" and "\<forall>r\<in>set xs. student_id r \<noteq> i"
      by (auto simp: set_email_absent ids_def)
    with free have "em \<notin> email ` set xs"
      by (auto simp: email_taken_def list_ex_iff)
    with True same Cons.prems(2) show ?thesis
      by (simp add: set_email_def)
  next
    case False
    with Cons.prems(3) have "email x \<noteq> em"
      by (auto simp: email_taken_def has_id_def)
    moreover from Cons.prems(2) have "email x \<notin> email ` set xs" by simp
    ultimately have "email x \<notin> email ` set (set_email i em xs)"
      using emails_set_email [of i em xs] by blast
    moreover from False have "set_email i em (x # xs) = x # set_email i em xs"
      by (simp add: set_email_def)
    ultimately show ?thesis
      using IH by simp
  qed
qed

lemma constraints_without: "constraints rows \<Longrightarrow> constraints (without i rows)"
  by (auto simp: constraints_def without_def distinct_map_filter list_all_iff)

lemma constraints_set_email:
  assumes "constraints rows" and "\<not> has_nul em"
    and "i \<notin> ids rows \<or> \<not> email_taken i em rows"
  shows "constraints (set_email i em rows)"
proof (cases "i \<in> ids rows")
  case False
  with assms(1) show ?thesis by (simp add: set_email_absent)
next
  case True
  with assms(3) have free: "\<not> email_taken i em rows" by simp
  from assms(1) have d: "distinct (map student_id rows)" and e: "distinct (map email rows)"
    by (simp_all add: constraints_def)
  have "distinct (map email (set_email i em rows))"
    by (rule distinct_emails_set_email [OF d e free])
  moreover have "list_all (\<lambda>r. \<not> has_nul (first_name r) \<and> \<not> has_nul (last_name r) \<and>
                   \<not> has_nul (email r)) (set_email i em rows)"
    using assms(1,2) by (auto simp: constraints_def set_email_def list_all_iff)
  ultimately show ?thesis
    using d by (simp add: constraints_def ids_set_email)
qed

lemma consistent_getAllStudents: "consistent c \<Longrightarrow> consistent (fst (getAllStudents E c))"
  by (simp add: getAllStudents_def select_all_def sent_def consistent_def quiescent_def
      split: prod.splits sum.splits)

lemma consistent_addStudent:
  assumes "consistent c" and "addStudent E c fn ln em d = (c', out, r)"
    and "\<forall>e. r \<noteq> Inl (DbError e)"
  shows "consistent c'"
proof (cases "has_nul fn \<or> has_nul ln \<or> has_nul em \<or> has_nul d")
  case True
  from addStudent_nul [OF True, of E c] assms(1,2) show ?thesis by simp
next
  case nul: False
  from assms(1) have w: "working c = stored c" and k: "constraints (stored c)"
    by (simp_all add: consistent_def quiescent_def)
  show ?thesis
  proof (cases "insert_accepted E c em d")
    case True
    then obtain dt where dt: "date_in E d = Some dt"
      by (auto simp: insert_accepted_def)
    from True have fresh: "seq c \<notin> ids (working c)" "em \<notin> email ` set (working c)"
      by (auto simp: insert_accepted_def list_ex_iff ids_def)
    from addStudent_accepted [OF nul True dt] assms(2)
    have "stored c' = working c @ [new_row (seq c) fn ln em dt]"
      and "working c' = working c @ [new_row (seq c) fn ln em dt]"
      by auto
    with w k fresh nul show ?thesis
      by (simp add: consistent_def quiescent_def constraints_def ids_def new_row_def)
  next
    case False
    from addStudent_refused [OF nul False] assms(2,3) k show ?thesis
      by (auto simp: consistent_def quiescent_def split: if_splits)
  qed
qed

lemma consistent_updateStudentEmail:
  assumes "consistent c" and "updateStudentEmail E c i em = (c', out, r)"
    and "\<forall>e. r \<noteq> Inl (DbError e)"
  shows "consistent c'"
proof -
  from assms(1) have w: "working c = stored c" and k: "constraints (stored c)"
    by (simp_all add: consistent_def quiescent_def)
  have "working c' = stored c' \<and>
        (stored c' = stored c \<or> stored c' = without i (stored c) \<or>
         (stored c' = set_email i em (stored c) \<and> \<not> has_nul em \<and>
          \<not> email_taken i em (stored c)))"
    using assms(2,3) w
    by (auto simp: updateStudentEmail_def select_by_id_def update_email_def commit_def
        rollback_def except_Error_def sent_def faulty_def Let_def without_def set_email_def
        email_taken_def
        split: if_splits list.splits sum.splits exn.splits prod.splits)
  with k show ?thesis
    by (auto simp: consistent_def quiescent_def constraints_without constraints_set_email)
qed

lemma consistent_deleteStudent:
  assumes "consistent c" and "deleteStudent E c i = (c', out, r)"
    and "\<forall>e. r \<noteq> Inl (DbError e)"
  shows "consistent c'"
proof -
  from assms(1) have w: "working c = stored c" and k: "constraints (stored c)"
    by (simp_all add: consistent_def quiescent_def)
  have "working c' = stored c' \<and> (stored c' = stored c \<or> stored c' = without i (stored c))"
    using assms(2,3) w
    by (auto simp: deleteStudent_def select_by_id_def delete_by_id_def commit_def
        rollback_def except_Error_def sent_def faulty_def Let_def without_def
        split: if_splits list.splits sum.splits prod.splits)
  with k show ?thesis
    by (auto simp: consistent_def quiescent_def constraints_without)
qed

lemma consistent_choice_add:
  assumes "consistent db" and "choice_add E db ins = (None, db', out, ins')"
  shows "consistent db'"
  using assms
  by (auto simp: choice_add_def Let_def split: sum.splits prod.splits if_splits
      elim!: consistent_addStudent)

lemma consistent_choice_update:
  assumes "consistent db" and "choice_update E db ins = (None, db', out, ins')"
  shows "consistent db'"
  using assms
  by (auto simp: choice_update_def split: sum.splits prod.splits option.splits if_splits
      elim!: consistent_updateStudentEmail)

lemma consistent_choice_delete:
  assumes "consistent db" and "choice_delete E db ins = (None, db', out, ins')"
  shows "consistent db'"
  using assms
  by (auto simp: choice_delete_def Let_def
      split: sum.splits prod.splits option.splits if_splits
      elim!: consistent_deleteStudent)

lemma consistent_menu_choice:
  assumes "consistent db" and "menu_choice E db ch ins = (Inr k, db', out, ins')"
  shows "consistent db'"
  using assms
  by (auto simp: menu_choice_def split: if_splits prod.splits option.splits
      dest: consistent_choice_add consistent_choice_update consistent_choice_delete
            consistent_getAllStudents [where E = E])

lemma consistent_main_loop:
  "consistent db \<Longrightarrow> main_loop E db ins = (None, db', out) \<Longrightarrow> consistent db'"
proof (induction "length ins" arbitrary: db ins db' out rule: less_induct)
  case less
  show ?case
  proof (cases "input ins")
    case (Inl ex)
    with less.prems(2) show ?thesis
      by (subst (asm) main_loop.simps) simp
  next
    case (Inr p)
    obtain l ins1 where p: "p = (l, ins1)" by (cases p)
    obtain x db1 out1 ins2 where mc: "menu_choice E db (strip E l) ins1 = (x, db1, out1, ins2)"
      by (metis prod_cases4)
    from Inr p have a: "length ins1 < length ins" by (auto dest: input_shorter)
    from mc have b: "length ins2 \<le> length ins1" by (rule menu_choice_length)
    show ?thesis
    proof (cases x)
      case (Inl ex)
      with less.prems(2) Inr p mc show ?thesis
        by (subst (asm) main_loop.simps) simp
    next
      case inr: (Inr k)
      from less.prems(1) mc inr have c1: "consistent db1"
        by (auto dest: consistent_menu_choice)
      show ?thesis
      proof (cases k)
        case Break
        with less.prems(2) Inr p mc inr have "db' = db1"
          by (subst (asm) main_loop.simps) simp
        with c1 show ?thesis by simp
      next
        case Continue
        show ?thesis
        proof (cases "input ins2")
          case (Inl ex)
          with less.prems(2) \<open>input ins = Inr p\<close> p mc inr Continue show ?thesis
            by (subst (asm) main_loop.simps) simp
        next
          case r2: (Inr q)
          obtain l' ins3 where q: "q = (l', ins3)" by (cases q)
          from r2 q have c: "length ins3 < length ins2" by (auto dest: input_shorter)
          obtain r3 db2 out2 where rec: "main_loop E db1 ins3 = (r3, db2, out2)"
            by (metis prod_cases3)
          from less.prems(2) \<open>input ins = Inr p\<close> p mc inr Continue r2 q rec
          have "r3 = None" and "db' = db2"
            by (subst (asm) main_loop.simps, simp)+
          with rec less.hyps [of ins3 db1 db2 out2] a b c c1 show ?thesis by simp
        qed
      qed
    qed
  qed
qed

end
